theory Spec2Isabelle
  imports Main "HOL-Library.Word"
begin

section \<open>Data model\<close>

text \<open>
  The source is one C function, \<^verbatim>\<open>enable_keepalive\<close> in \<^verbatim>\<open>KeepAlive/keepalive.c\<close>,
  which issues four \<^verbatim>\<open>setsockopt\<close> system calls, each guarded by the macro
  \<^verbatim>\<open>check(expr)\<close> = \<^verbatim>\<open>if (!(expr)) { return 0; }\<close>.

  A C \<^verbatim>\<open>int\<close> is a 32-bit word, so \<^verbatim>\<open>sizeof(int)\<close> is 4 and \<open>-1\<close> is the word
  of all ones.
\<close>

type_synonym c_int = "32 word"

definition sizeof_int :: nat where
  "sizeof_int = 4"

text \<open>The two protocol levels and the four option names the source uses.\<close>

datatype level = SOL_SOCKET | IPPROTO_TCP

datatype optname = SO_KEEPALIVE | TCP_KEEPIDLE | TCP_KEEPINTVL | TCP_KEEPCNT

text \<open>
  The arguments of one \<^verbatim>\<open>setsockopt(fd, level, optname, optval, optlen)\<close> call.
  The source always passes the address of one of its own \<^verbatim>\<open>int\<close> parameters as
  \<^verbatim>\<open>optval\<close>; the call receives the \<^verbatim>\<open>int\<close> stored there and its size.
\<close>

record sockopt_call =
  fd :: c_int
  level :: level
  optname :: optname
  optval :: c_int
  optlen :: nat

text \<open>
  The operating system is not part of the source: it is a parameter. Given a call and
  the kernel's state it yields the call's return value and the kernel's next state.
\<close>

type_synonym 'k os = "sockopt_call \<Rightarrow> 'k \<Rightarrow> c_int \<times> 'k"

text \<open>
  The world the function runs in: the kernel's state, and the system calls issued so
  far, each with the value it returned, oldest first.
\<close>

record 'k world =
  kernel :: 'k
  calls :: "(sockopt_call \<times> c_int) list"

section \<open>The source\<close>

text \<open>One system call: the kernel answers, and the call is recorded.\<close>

definition setsockopt ::
  "'k os \<Rightarrow> c_int \<Rightarrow> level \<Rightarrow> optname \<Rightarrow> c_int \<Rightarrow> nat \<Rightarrow> 'k world \<Rightarrow> c_int \<times> 'k world" where
  "setsockopt os sock lvl opt val len w =
     (let c = \<lparr>fd = sock, level = lvl, optname = opt, optval = val, optlen = len\<rparr>;
          (r, k') = os c (kernel w)
      in (r, \<lparr>kernel = k', calls = calls w @ [(c, r)]\<rparr>))"

text \<open>
  \<^verbatim>\<open>#define check(expr) if (!(expr)) { return 0; }\<close>: when the expression is false
  the function returns 0 in the world reached so far, otherwise it goes on.
\<close>

definition check :: "bool \<Rightarrow> 'w \<Rightarrow> c_int \<times> 'w \<Rightarrow> c_int \<times> 'w" where
  "check expr w rest = (if \<not> expr then (0, w) else rest)"

text \<open>
  \<^verbatim>\<open>int enable_keepalive(int sock, int enable_keepalive, int time, int interval, int maxpkt)\<close>.
  The second parameter shadows the function's name in C; here it is \<open>enable\<close>.
\<close>

definition enable_keepalive ::
  "'k os \<Rightarrow> c_int \<Rightarrow> c_int \<Rightarrow> c_int \<Rightarrow> c_int \<Rightarrow> c_int \<Rightarrow> 'k world \<Rightarrow> c_int \<times> 'k world" where
  "enable_keepalive os sock enable time interval maxpkt w0 =
     (let (r1, w1) = setsockopt os sock SOL_SOCKET SO_KEEPALIVE enable sizeof_int w0 in
      check (r1 \<noteq> - 1) w1
     (let (r2, w2) = setsockopt os sock IPPROTO_TCP TCP_KEEPIDLE time sizeof_int w1 in
      check (r2 \<noteq> - 1) w2
     (let (r3, w3) = setsockopt os sock IPPROTO_TCP TCP_KEEPINTVL interval sizeof_int w2 in
      check (r3 \<noteq> - 1) w3
     (let (r4, w4) = setsockopt os sock IPPROTO_TCP TCP_KEEPCNT maxpkt sizeof_int w3 in
      check (r4 \<noteq> - 1) w4
      (1, w4)))))"

section \<open>The algorithm as the specification words it\<close>

text \<open>
  The four settings in the specification's order: (1) enable/disable keepalive,
  (2) idle time, (3) probe interval, (4) max probes.
\<close>

definition keepalive_steps :: "c_int \<Rightarrow> c_int \<Rightarrow> c_int \<Rightarrow> c_int \<Rightarrow> c_int \<Rightarrow> sockopt_call list" where
  "keepalive_steps sock enable time interval maxpkt =
     [\<lparr>fd = sock, level = SOL_SOCKET, optname = SO_KEEPALIVE, optval = enable, optlen = 4\<rparr>,
      \<lparr>fd = sock, level = IPPROTO_TCP, optname = TCP_KEEPIDLE, optval = time, optlen = 4\<rparr>,
      \<lparr>fd = sock, level = IPPROTO_TCP, optname = TCP_KEEPINTVL, optval = interval, optlen = 4\<rparr>,
      \<lparr>fd = sock, level = IPPROTO_TCP, optname = TCP_KEEPCNT, optval = maxpkt, optlen = 4\<rparr>]"

text \<open>
  "Apply settings in a fixed sequence, short-circuiting on the first failure": the
  calls of a list are issued in order; a call that returns \<open>-1\<close> ends the run with
  failure, and the run succeeds when the list is exhausted. The result is the success
  flag, the calls issued with their return values, and the kernel's final state.
\<close>

fun apply_in_order ::
  "'k os \<Rightarrow> sockopt_call list \<Rightarrow> 'k \<Rightarrow> bool \<times> (sockopt_call \<times> c_int) list \<times> 'k" where
  "apply_in_order os [] k = (True, [], k)"
| "apply_in_order os (c # cs) k =
     (case os c k of (r, k') \<Rightarrow>
        if r = - 1 then (False, [(c, r)], k')
        else (case apply_in_order os cs k' of (ok, evs, k'') \<Rightarrow> (ok, (c, r) # evs, k'')))"

text \<open>The calls an invocation added to the record of a world.\<close>

definition new_calls :: "'k world \<Rightarrow> 'k world \<Rightarrow> (sockopt_call \<times> c_int) list" where
  "new_calls w w' = drop (length (calls w)) (calls w')"

text \<open>
  Every call of a list succeeds when the calls are issued in order, each in the kernel
  state its predecessor left.
\<close>

fun all_succeed :: "'k os \<Rightarrow> sockopt_call list \<Rightarrow> 'k \<Rightarrow> bool" where
  "all_succeed os [] k = True"
| "all_succeed os (c # cs) k = (case os c k of (r, k') \<Rightarrow> r \<noteq> - 1 \<and> all_succeed os cs k')"

section \<open>What is assumed of the platform\<close>

text \<open>
  The source never reads an option back; what a successful or a failed
  \<^verbatim>\<open>setsockopt\<close> does to the connection's settings is the platform's business.
  Claims about the settings are stated for a platform whose settings can be read by a
  function \<open>get\<close> of the kernel state (the option of a handle at a level, if any), and
  which keeps the following contracts.
\<close>

type_synonym option_key = "c_int \<times> level \<times> optname"

type_synonym 'k getter = "'k \<Rightarrow> option_key \<Rightarrow> c_int option"

definition option_key :: "sockopt_call \<Rightarrow> option_key" where
  "option_key c = (fd c, level c, optname c)"

text \<open>A call that succeeds writes its value to its option and touches no other.\<close>

definition stores_on_success :: "'k os \<Rightarrow> 'k getter \<Rightarrow> bool" where
  "stores_on_success os get \<longleftrightarrow>
     (\<forall>c k. fst (os c k) \<noteq> - 1 \<longrightarrow> get (snd (os c k)) = (get k)(option_key c \<mapsto> optval c))"

text \<open>A call that fails changes no setting.\<close>

definition inert_on_failure :: "'k os \<Rightarrow> 'k getter \<Rightarrow> bool" where
  "inert_on_failure os get \<longleftrightarrow> (\<forall>c k. fst (os c k) = - 1 \<longrightarrow> get (snd (os c k)) = get k)"

text \<open>
  Whether the platform accepts a call is not changed by a successful call: a handle
  stays valid and a legal value stays legal while options are written.
\<close>

definition acceptance_stable :: "'k os \<Rightarrow> bool" where
  "acceptance_stable os \<longleftrightarrow>
     (\<forall>c c' k. fst (os c' k) \<noteq> - 1 \<longrightarrow>
        (fst (os c (snd (os c' k))) \<noteq> - 1) = (fst (os c k) \<noteq> - 1))"

text \<open>The platform rejects every configuration call on a handle, in a kernel state.\<close>

definition rejects_handle :: "'k os \<Rightarrow> 'k \<Rightarrow> c_int \<Rightarrow> bool" where
  "rejects_handle os k sock \<longleftrightarrow> (\<forall>c. fd c = sock \<longrightarrow> fst (os c k) = - 1)"

section \<open>A reference platform\<close>

text \<open>
  Modelled from the spec: the operating system's socket configuration facility
  (\<^verbatim>\<open>setsockopt\<close> and the read-back of an option), which the source calls and does
  not contain. The kernel knows the open handles and the options set on them. A call on
  a handle that is not open, with a length other than that of an \<^verbatim>\<open>int\<close>, or with
  a value the platform holds illegal, fails with \<open>-1\<close> and changes nothing; any other
  call stores its value and returns \<open>0\<close>.
\<close>

record ref_kernel =
  open_socks :: "c_int list"
  settings :: "option_key \<Rightarrow> c_int option"

definition ref_os :: "(ref_kernel \<Rightarrow> sockopt_call \<Rightarrow> bool) \<Rightarrow> ref_kernel os" where
  "ref_os legal c k =
     (if fd c \<in> set (open_socks k) \<and> optlen c = 4 \<and> legal k c
      then (0, k\<lparr>settings := (settings k)(option_key c \<mapsto> optval c)\<rparr>)
      else (- 1, k))"

definition ref_get :: "ref_kernel getter" where
  "ref_get k = settings k"

text \<open>A platform on which no value is negative: the sign bit of a legal value is clear.\<close>

definition nonneg_legal :: "ref_kernel \<Rightarrow> sockopt_call \<Rightarrow> bool" where
  "nonneg_legal k c = (optval c < 2147483648)"

text \<open>
  A platform that refuses the TCP-level keepalive options on a handle whose keepalive
  is not switched on.
\<close>

definition enabled_first_legal :: "ref_kernel \<Rightarrow> sockopt_call \<Rightarrow> bool" where
  "enabled_first_legal k c =
     (optname c = SO_KEEPALIVE \<or>
      (case settings k (fd c, SOL_SOCKET, SO_KEEPALIVE) of None \<Rightarrow> False | Some v \<Rightarrow> v \<noteq> 0))"

text \<open>
  Modelled from the spec: "\<^verbatim>\<open>enabled\<close>: nonzero requests keepalive probing be turned on;
  zero turns it off". A platform that keeps keepalive as an on/off flag: like the
  reference platform, but a successful \<^verbatim>\<open>SO_KEEPALIVE\<close> call stores 1 for every nonzero
  value and 0 for zero, and that flag is what a read-back yields.
\<close>

definition flag_value :: "sockopt_call \<Rightarrow> c_int" where
  "flag_value c =
     (if level c = SOL_SOCKET \<and> optname c = SO_KEEPALIVE
      then (if optval c = 0 then 0 else 1) else optval c)"

definition flag_os :: "(ref_kernel \<Rightarrow> sockopt_call \<Rightarrow> bool) \<Rightarrow> ref_kernel os" where
  "flag_os legal c k =
     (if fd c \<in> set (open_socks k) \<and> optlen c = 4 \<and> legal k c
      then (0, k\<lparr>settings := (settings k)(option_key c \<mapsto> flag_value c)\<rparr>)
      else (- 1, k))"

text \<open>A platform whose every call returns the same value and changes nothing.\<close>

definition const_os :: "c_int \<Rightarrow> unit os" where
  "const_os v c k = (v, k)"

text \<open>
  A kernel with the single open handle 3, keepalive off and an idle time of 7200
  seconds on it, and a world in which no call has been issued yet.
\<close>

definition kernel0 :: ref_kernel where
  "kernel0 = \<lparr>open_socks = [3],
               settings = [(3, SOL_SOCKET, SO_KEEPALIVE) \<mapsto> 0, (3, IPPROTO_TCP, TCP_KEEPIDLE) \<mapsto> 7200]\<rparr>"

definition world0 :: "ref_kernel world" where
  "world0 = \<lparr>kernel = kernel0, calls = []\<rparr>"

text \<open>The same with keepalive switched on for handle 3.\<close>

definition world1 :: "ref_kernel world" where
  "world1 = \<lparr>kernel = kernel0\<lparr>settings := (settings kernel0)((3, SOL_SOCKET, SO_KEEPALIVE) \<mapsto> 1)\<rparr>,
              calls = []\<rparr>"

section \<open>Properties of the specification's algorithm\<close>

lemma apply_in_order_ConsE:
  assumes "apply_in_order os (c # cs) k = (ok, evs, k')"
  obtains (failed) "os c k = (- 1, k')" "\<not> ok" "evs = [(c, - 1)]"
  | (passed) r k1 evs1 where "os c k = (r, k1)" "r \<noteq> - 1"
      "apply_in_order os cs k1 = (ok, evs1, k')" "evs = (c, r) # evs1"
  using assms by (auto split: prod.splits if_splits)

lemma apply_in_order_prefix:
  "apply_in_order os cs k = (ok, evs, k') \<Longrightarrow> map fst evs = take (length evs) cs"
proof (induction cs arbitrary: k evs)
  case Nil
  then show ?case by simp
next
  case (Cons c cs)
  from Cons.prems show ?case
    by (cases rule: apply_in_order_ConsE) (simp_all add: Cons.IH)
qed

lemma apply_in_order_length_le:
  "apply_in_order os cs k = (ok, evs, k') \<Longrightarrow> length evs \<le> length cs"
proof (induction cs arbitrary: k evs)
  case Nil
  then show ?case by simp
next
  case (Cons c cs)
  from Cons.prems show ?case
    by (cases rule: apply_in_order_ConsE) (auto dest: Cons.IH)
qed

lemma apply_in_order_nonempty:
  "apply_in_order os cs k = (ok, evs, k') \<Longrightarrow> cs \<noteq> [] \<Longrightarrow> evs \<noteq> []"
  by (cases cs) (auto split: prod.splits if_splits)

lemma apply_in_order_ok_iff:
  "apply_in_order os cs k = (ok, evs, k') \<Longrightarrow>
     ok \<longleftrightarrow> length evs = length cs \<and> (\<forall>ev \<in> set evs. snd ev \<noteq> - 1)"
proof (induction cs arbitrary: k evs)
  case Nil
  then show ?case by auto
next
  case (Cons c cs)
  from Cons.prems show ?case
  proof (cases rule: apply_in_order_ConsE)
    case failed
    then show ?thesis by simp
  next
    case (passed r k1 evs1)
    from Cons.IH [OF passed(3)] passed(2,4) show ?thesis by simp
  qed
qed

lemma apply_in_order_failure_last:
  "apply_in_order os cs k = (ok, evs, k') \<Longrightarrow> j < length evs \<Longrightarrow> snd (evs ! j) = - 1 \<Longrightarrow>
     length evs = Suc j \<and> \<not> ok"
proof (induction cs arbitrary: k evs j)
  case Nil
  then show ?case by simp
next
  case (Cons c cs)
  from Cons.prems(1) show ?case
  proof (cases rule: apply_in_order_ConsE)
    case failed
    with Cons.prems show ?thesis by simp
  next
    case (passed r k1 evs1)
    show ?thesis
    proof (cases j)
      case 0
      with Cons.prems passed show ?thesis by simp
    next
      case (Suc i)
      with Cons.prems passed have "i < length evs1" "snd (evs1 ! i) = - 1" by simp_all
      from Cons.IH [OF passed(3) this] passed(4) Suc show ?thesis by simp
    qed
  qed
qed

lemma apply_in_order_not_ok:
  "apply_in_order os cs k = (ok, evs, k') \<Longrightarrow> \<not> ok \<Longrightarrow> evs \<noteq> [] \<and> snd (last evs) = - 1"
proof (induction cs arbitrary: k evs)
  case Nil
  then show ?case by simp
next
  case (Cons c cs)
  from Cons.prems(1) show ?case
  proof (cases rule: apply_in_order_ConsE)
    case failed
    then show ?thesis by simp
  next
    case (passed r k1 evs1)
    from Cons.IH [OF passed(3) Cons.prems(2)] passed(4) show ?thesis by simp
  qed
qed

lemma apply_in_order_count:
  "apply_in_order os cs k = (ok, evs, k') \<Longrightarrow>
     length evs = (if ok then length cs else Suc (length (takeWhile (\<lambda>ev. snd ev \<noteq> - 1) evs)))"
proof (induction cs arbitrary: k evs)
  case Nil
  then show ?case by simp
next
  case (Cons c cs)
  from Cons.prems(1) show ?case
  proof (cases rule: apply_in_order_ConsE)
    case failed
    then show ?thesis by simp
  next
    case (passed r k1 evs1)
    from Cons.IH [OF passed(3)] passed(2,4) show ?thesis by simp
  qed
qed

lemma all_succeed_iff: "all_succeed os cs k = fst (apply_in_order os cs k)"
  by (induction cs arbitrary: k) (simp_all add: split_beta)

section \<open>The platform's contracts\<close>

lemma stores_on_successD:
  "stores_on_success os get \<Longrightarrow> os c k = (r, k') \<Longrightarrow> r \<noteq> - 1 \<Longrightarrow>
     get k' = (get k)(option_key c \<mapsto> optval c)"
  by (auto simp: stores_on_success_def dest!: spec [of _ c] spec [of _ k])

lemma inert_on_failureD:
  "inert_on_failure os get \<Longrightarrow> os c k = (- 1, k') \<Longrightarrow> get k' = get k"
  by (auto simp: inert_on_failure_def dest!: spec [of _ c] spec [of _ k])

lemma acceptance_stableD:
  "acceptance_stable os \<Longrightarrow> os c' k = (r, k') \<Longrightarrow> r \<noteq> - 1 \<Longrightarrow>
     (fst (os c k') \<noteq> - 1) = (fst (os c k) \<noteq> - 1)"
  unfolding acceptance_stable_def
  by (drule spec [of _ c], drule spec [of _ c'], drule spec [of _ k]) simp

lemma all_succeed_cong:
  assumes "acceptance_stable os"
  shows "(\<And>c. (fst (os c k) \<noteq> - 1) = (fst (os c k') \<noteq> - 1)) \<Longrightarrow>
     all_succeed os cs k = all_succeed os cs k'"
proof (induction cs arbitrary: k k')
  case Nil
  show ?case by simp
next
  case (Cons c cs)
  obtain r k1 where s1: "os c k = (r, k1)" by (cases "os c k")
  obtain r' k1' where s2: "os c k' = (r', k1')" by (cases "os c k'")
  from Cons.prems [of c] s1 s2 have same: "(r \<noteq> - 1) = (r' \<noteq> - 1)" by simp
  show ?case
  proof (cases "r = - 1")
    case True
    with same s1 s2 show ?thesis by simp
  next
    case False
    with same have False': "r' \<noteq> - 1" by simp
    have "all_succeed os cs k1 = all_succeed os cs k1'"
    proof (rule Cons.IH)
      fix d
      have "(fst (os d k1) \<noteq> - 1) = (fst (os d k) \<noteq> - 1)"
        by (rule acceptance_stableD [OF assms s1 False])
      also have "\<dots> = (fst (os d k') \<noteq> - 1)"
        by (rule Cons.prems)
      also have "\<dots> = (fst (os d k1') \<noteq> - 1)"
        by (rule acceptance_stableD [OF assms s2 False', symmetric])
      finally show "(fst (os d k1) \<noteq> - 1) = (fst (os d k1') \<noteq> - 1)" .
    qed
    with s1 s2 False False' show ?thesis by simp
  qed
qed

lemma apply_in_order_same_acceptance:
  assumes "acceptance_stable os"
  shows "apply_in_order os cs k = (True, evs, k') \<Longrightarrow>
     (fst (os d k') \<noteq> - 1) = (fst (os d k) \<noteq> - 1)"
proof (induction cs arbitrary: k evs)
  case Nil
  then show ?case by simp
next
  case (Cons c cs)
  from Cons.prems show ?case
  proof (cases rule: apply_in_order_ConsE)
    case failed
    then show ?thesis by simp
  next
    case (passed r k1 evs1)
    have "(fst (os d k') \<noteq> - 1) = (fst (os d k1) \<noteq> - 1)"
      by (rule Cons.IH [OF passed(3)])
    also have "\<dots> = (fst (os d k) \<noteq> - 1)"
      by (rule acceptance_stableD [OF assms passed(1,2)])
    finally show ?thesis .
  qed
qed

section \<open>The source refines the specification's algorithm\<close>

lemma length_keepalive_steps [simp]:
  "length (keepalive_steps sock enable time interval maxpkt) = 4"
  by (simp add: keepalive_steps_def)

lemma keepalive_steps_nonempty [simp]:
  "keepalive_steps sock enable time interval maxpkt \<noteq> []"
  by (simp add: keepalive_steps_def)

lemma enable_keepalive_refines:
  "enable_keepalive os sock enable time interval maxpkt w =
     (case apply_in_order os (keepalive_steps sock enable time interval maxpkt) (kernel w) of
        (ok, evs, k') \<Rightarrow> (if ok then 1 else 0, \<lparr>kernel = k', calls = calls w @ evs\<rparr>))"
  by (simp add: enable_keepalive_def setsockopt_def check_def keepalive_steps_def
      sizeof_int_def Let_def split_beta)

lemma enable_keepalive_run:
  assumes "enable_keepalive os sock enable time interval maxpkt w = (r, w')"
  obtains ok evs where
    "apply_in_order os (keepalive_steps sock enable time interval maxpkt) (kernel w) = (ok, evs, kernel w')"
    "r = (if ok then 1 else 0)" "calls w' = calls w @ evs" "new_calls w w' = evs"
proof -
  obtain ok evs k' where
    run: "apply_in_order os (keepalive_steps sock enable time interval maxpkt) (kernel w) = (ok, evs, k')"
    by (metis prod_cases3)
  from assms run have "r = (if ok then 1 else 0)" and w': "w' = \<lparr>kernel = k', calls = calls w @ evs\<rparr>"
    by (simp_all add: enable_keepalive_refines)
  moreover from w' have "new_calls w w' = evs" "kernel w' = k'" "calls w' = calls w @ evs"
    by (simp_all add: new_calls_def)
  ultimately show thesis using run that [of ok evs] by simp
qed

lemma enable_keepalive_true_iff:
  assumes "enable_keepalive os sock enable time interval maxpkt w = (r, w')"
  shows "(r = 1) = all_succeed os (keepalive_steps sock enable time interval maxpkt) (kernel w)"
proof -
  from assms obtain ok evs where
    run: "apply_in_order os (keepalive_steps sock enable time interval maxpkt) (kernel w) = (ok, evs, kernel w')"
    and r: "r = (if ok then 1 else 0)"
    by (rule enable_keepalive_run)
  then show ?thesis by (simp add: all_succeed_iff)
qed

section \<open>The outcomes of an invocation\<close>

lemma enable_keepalive_cases [consumes 1, case_names fail1 fail2 fail3 fail4 success]:
  assumes "enable_keepalive os sock enable time interval maxpkt w = (r, w')"
  obtains
    (fail1)
      "os \<lparr>fd = sock, level = SOL_SOCKET, optname = SO_KEEPALIVE, optval = enable, optlen = 4\<rparr> (kernel w)
         = (- 1, kernel w')"
      "r = 0" "length (new_calls w w') = 1"
  | (fail2) r1 k1 where
      "os \<lparr>fd = sock, level = SOL_SOCKET, optname = SO_KEEPALIVE, optval = enable, optlen = 4\<rparr> (kernel w)
         = (r1, k1)" "r1 \<noteq> - 1"
      "os \<lparr>fd = sock, level = IPPROTO_TCP, optname = TCP_KEEPIDLE, optval = time, optlen = 4\<rparr> k1
         = (- 1, kernel w')"
      "r = 0" "length (new_calls w w') = 2"
  | (fail3) r1 k1 r2 k2 where
      "os \<lparr>fd = sock, level = SOL_SOCKET, optname = SO_KEEPALIVE, optval = enable, optlen = 4\<rparr> (kernel w)
         = (r1, k1)" "r1 \<noteq> - 1"
      "os \<lparr>fd = sock, level = IPPROTO_TCP, optname = TCP_KEEPIDLE, optval = time, optlen = 4\<rparr> k1
         = (r2, k2)" "r2 \<noteq> - 1"
      "os \<lparr>fd = sock, level = IPPROTO_TCP, optname = TCP_KEEPINTVL, optval = interval, optlen = 4\<rparr> k2
         = (- 1, kernel w')"
      "r = 0" "length (new_calls w w') = 3"
  | (fail4) r1 k1 r2 k2 r3 k3 where
      "os \<lparr>fd = sock, level = SOL_SOCKET, optname = SO_KEEPALIVE, optval = enable, optlen = 4\<rparr> (kernel w)
         = (r1, k1)" "r1 \<noteq> - 1"
      "os \<lparr>fd = sock, level = IPPROTO_TCP, optname = TCP_KEEPIDLE, optval = time, optlen = 4\<rparr> k1
         = (r2, k2)" "r2 \<noteq> - 1"
      "os \<lparr>fd = sock, level = IPPROTO_TCP, optname = TCP_KEEPINTVL, optval = interval, optlen = 4\<rparr> k2
         = (r3, k3)" "r3 \<noteq> - 1"
      "os \<lparr>fd = sock, level = IPPROTO_TCP, optname = TCP_KEEPCNT, optval = maxpkt, optlen = 4\<rparr> k3
         = (- 1, kernel w')"
      "r = 0" "length (new_calls w w') = 4"
  | (success) r1 k1 r2 k2 r3 k3 r4 where
      "os \<lparr>fd = sock, level = SOL_SOCKET, optname = SO_KEEPALIVE, optval = enable, optlen = 4\<rparr> (kernel w)
         = (r1, k1)" "r1 \<noteq> - 1"
      "os \<lparr>fd = sock, level = IPPROTO_TCP, optname = TCP_KEEPIDLE, optval = time, optlen = 4\<rparr> k1
         = (r2, k2)" "r2 \<noteq> - 1"
      "os \<lparr>fd = sock, level = IPPROTO_TCP, optname = TCP_KEEPINTVL, optval = interval, optlen = 4\<rparr> k2
         = (r3, k3)" "r3 \<noteq> - 1"
      "os \<lparr>fd = sock, level = IPPROTO_TCP, optname = TCP_KEEPCNT, optval = maxpkt, optlen = 4\<rparr> k3
         = (r4, kernel w')" "r4 \<noteq> - 1"
      "r = 1" "length (new_calls w w') = 4"
proof -
  from assms obtain ok evs where
    run: "apply_in_order os (keepalive_steps sock enable time interval maxpkt) (kernel w) = (ok, evs, kernel w')"
    and r: "r = (if ok then 1 else 0)" and evs: "new_calls w w' = evs"
    by (rule enable_keepalive_run)
  from run [unfolded keepalive_steps_def] show thesis
  proof (cases rule: apply_in_order_ConsE)
    case failed
    with r evs show thesis by (intro fail1) simp_all
  next
    case step1: (passed r1 k1 evs1)
    from step1(3) show thesis
    proof (cases rule: apply_in_order_ConsE)
      case failed
      with r evs step1 show thesis by (intro fail2 [of r1 k1]) simp_all
    next
      case step2: (passed r2 k2 evs2)
      from step2(3) show thesis
      proof (cases rule: apply_in_order_ConsE)
        case failed
        with r evs step1 step2 show thesis by (intro fail3 [of r1 k1 r2 k2]) simp_all
      next
        case step3: (passed r3 k3 evs3)
        from step3(3) show thesis
        proof (cases rule: apply_in_order_ConsE)
          case failed
          with r evs step1 step2 step3 show thesis
            by (intro fail4 [of r1 k1 r2 k2 r3 k3]) simp_all
        next
          case step4: (passed r4 k4 evs4)
          from step4(3) have "ok" "evs4 = []" "k4 = kernel w'" by simp_all
          with r evs step1 step2 step3 step4 show thesis
            by (intro success [of r1 k1 r2 k2 r3 k3 r4]) simp_all
        qed
      qed
    qed
  qed
qed

lemma enable_keepalive_true_settings:
  assumes "stores_on_success os get"
    and "enable_keepalive os sock enable time interval maxpkt w = (1, w')"
  shows "get (kernel w') = (get (kernel w))
           ((sock, SOL_SOCKET, SO_KEEPALIVE) \<mapsto> enable, (sock, IPPROTO_TCP, TCP_KEEPIDLE) \<mapsto> time,
            (sock, IPPROTO_TCP, TCP_KEEPINTVL) \<mapsto> interval, (sock, IPPROTO_TCP, TCP_KEEPCNT) \<mapsto> maxpkt)"
  using assms(2)
proof (cases rule: enable_keepalive_cases)
  case (success r1 k1 r2 k2 r3 k3 r4)
  have "get k1 = (get (kernel w))((sock, SOL_SOCKET, SO_KEEPALIVE) \<mapsto> enable)"
    using stores_on_successD [OF assms(1) success(1,2)] by (simp add: option_key_def)
  moreover have "get k2 = (get k1)((sock, IPPROTO_TCP, TCP_KEEPIDLE) \<mapsto> time)"
    using stores_on_successD [OF assms(1) success(3,4)] by (simp add: option_key_def)
  moreover have "get k3 = (get k2)((sock, IPPROTO_TCP, TCP_KEEPINTVL) \<mapsto> interval)"
    using stores_on_successD [OF assms(1) success(5,6)] by (simp add: option_key_def)
  moreover have "get (kernel w') = (get k3)((sock, IPPROTO_TCP, TCP_KEEPCNT) \<mapsto> maxpkt)"
    using stores_on_successD [OF assms(1) success(7,8)] by (simp add: option_key_def)
  ultimately show ?thesis by simp
qed simp_all

section \<open>The reference platform keeps the contracts\<close>

lemma ref_os_stores: "stores_on_success (ref_os legal) ref_get"
  by (auto simp: stores_on_success_def ref_os_def ref_get_def)

lemma ref_os_inert: "inert_on_failure (ref_os legal) ref_get"
  by (auto simp: inert_on_failure_def ref_os_def ref_get_def)

lemma ref_os_nonneg_stable: "acceptance_stable (ref_os nonneg_legal)"
  by (auto simp: acceptance_stable_def ref_os_def nonneg_legal_def)

lemma rejects_closed_handle: "rejects_handle (ref_os legal) kernel0 4"
  by (simp add: rejects_handle_def ref_os_def kernel0_def)

section \<open>Runs on the reference platform\<close>

lemmas ref_defs = enable_keepalive_def setsockopt_def check_def sizeof_int_def ref_os_def
  nonneg_legal_def world0_def world1_def kernel0_def option_key_def new_calls_def ref_get_def
  enabled_first_legal_def const_os_def keepalive_steps_def

lemma calls_world0 [simp]: "calls world0 = []"
  by (simp add: world0_def)

lemma kernel_world0: "kernel world0 = kernel0"
  by (simp add: world0_def)

lemma keepalive_on_world1: "ref_get (kernel world1) (3, SOL_SOCKET, SO_KEEPALIVE) = Some 1"
  by (simp add: ref_defs)

lemma all_succeed_accepted:
  "all_succeed (ref_os nonneg_legal) (keepalive_steps 3 1 60 10 5) (kernel world0)"
  by (simp add: ref_defs)

lemma disable_accepted:
  "fst (ref_os enabled_first_legal
     \<lparr>fd = 3, level = SOL_SOCKET, optname = SO_KEEPALIVE, optval = 0, optlen = 4\<rparr> (kernel world1)) \<noteq> - 1"
  by (simp add: ref_defs)

lemma run_accepted:
  "enable_keepalive (ref_os nonneg_legal) 3 1 60 10 5 world0 =
     (1, \<lparr>kernel = kernel0\<lparr>settings := (settings kernel0)
               ((3, SOL_SOCKET, SO_KEEPALIVE) \<mapsto> 1, (3, IPPROTO_TCP, TCP_KEEPIDLE) \<mapsto> 60,
                (3, IPPROTO_TCP, TCP_KEEPINTVL) \<mapsto> 10, (3, IPPROTO_TCP, TCP_KEEPCNT) \<mapsto> 5)\<rparr>,
          calls = [(\<lparr>fd = 3, level = SOL_SOCKET, optname = SO_KEEPALIVE, optval = 1, optlen = 4\<rparr>, 0),
                   (\<lparr>fd = 3, level = IPPROTO_TCP, optname = TCP_KEEPIDLE, optval = 60, optlen = 4\<rparr>, 0),
                   (\<lparr>fd = 3, level = IPPROTO_TCP, optname = TCP_KEEPINTVL, optval = 10, optlen = 4\<rparr>, 0),
                   (\<lparr>fd = 3, level = IPPROTO_TCP, optname = TCP_KEEPCNT, optval = 5, optlen = 4\<rparr>, 0)]\<rparr>)"
  by (simp add: ref_defs)

lemma run_idle_rejected:
  "enable_keepalive (ref_os nonneg_legal) 3 1 (- 60) 10 5 world0 =
     (0, \<lparr>kernel = kernel0\<lparr>settings := (settings kernel0)((3, SOL_SOCKET, SO_KEEPALIVE) \<mapsto> 1)\<rparr>,
          calls = [(\<lparr>fd = 3, level = SOL_SOCKET, optname = SO_KEEPALIVE, optval = 1, optlen = 4\<rparr>, 0),
                   (\<lparr>fd = 3, level = IPPROTO_TCP, optname = TCP_KEEPIDLE, optval = - 60, optlen = 4\<rparr>, - 1)]\<rparr>)"
  by (simp add: ref_defs)

lemma run_disable_rejected:
  "enable_keepalive (ref_os enabled_first_legal) 3 0 60 10 5 world1 =
     (0, \<lparr>kernel = (kernel world1)\<lparr>settings :=
                      (settings (kernel world1))((3, SOL_SOCKET, SO_KEEPALIVE) \<mapsto> 0)\<rparr>,
          calls = [(\<lparr>fd = 3, level = SOL_SOCKET, optname = SO_KEEPALIVE, optval = 0, optlen = 4\<rparr>, 0),
                   (\<lparr>fd = 3, level = IPPROTO_TCP, optname = TCP_KEEPIDLE, optval = 60, optlen = 4\<rparr>, - 1)]\<rparr>)"
  by (simp add: ref_defs)

lemma run_const_7:
  "enable_keepalive (const_os 7) 3 1 60 10 5 \<lparr>kernel = (), calls = []\<rparr> =
     (1, \<lparr>kernel = (),
          calls = [(\<lparr>fd = 3, level = SOL_SOCKET, optname = SO_KEEPALIVE, optval = 1, optlen = 4\<rparr>, 7),
                   (\<lparr>fd = 3, level = IPPROTO_TCP, optname = TCP_KEEPIDLE, optval = 60, optlen = 4\<rparr>, 7),
                   (\<lparr>fd = 3, level = IPPROTO_TCP, optname = TCP_KEEPINTVL, optval = 10, optlen = 4\<rparr>, 7),
                   (\<lparr>fd = 3, level = IPPROTO_TCP, optname = TCP_KEEPCNT, optval = 5, optlen = 4\<rparr>, 7)]\<rparr>)"
  by (simp add: ref_defs)

section \<open>The claims\<close>

text \<open>
  C1. \<^verbatim>\<open>enable_keepalive\<close> returns true (1) if and only if all four setting calls
  were made and succeeded; otherwise it returns false (0). A call that fails is the last
  call made: when step \<open>k\<close> is the first to fail, steps \<open>k+1..4\<close> are not invoked and
  the result is false. The function stops early only on a failure.
\<close>

theorem short_circuit_on_first_failure:
  assumes "enable_keepalive os sock enable time interval maxpkt w = (r, w')"
  shows "(r = 1 \<longleftrightarrow> length (new_calls w w') = 4 \<and> (\<forall>ev \<in> set (new_calls w w'). snd ev \<noteq> - 1))
       \<and> (r \<noteq> 1 \<longrightarrow> r = 0)
       \<and> (\<forall>j < length (new_calls w w'). snd (new_calls w w' ! j) = - 1 \<longrightarrow>
             r = 0 \<and> length (new_calls w w') = Suc j)
       \<and> (length (new_calls w w') < 4 \<longrightarrow> snd (last (new_calls w w')) = - 1)
       \<and> new_calls w w' \<noteq> []
       \<and> map fst (new_calls w w') =
           take (length (new_calls w w')) (keepalive_steps sock enable time interval maxpkt)"
proof -
  from assms obtain ok evs where
    run: "apply_in_order os (keepalive_steps sock enable time interval maxpkt) (kernel w) = (ok, evs, kernel w')"
    and r: "r = (if ok then 1 else 0)" and evs: "new_calls w w' = evs"
    by (rule enable_keepalive_run)
  have ok: "ok \<longleftrightarrow> length evs = 4 \<and> (\<forall>ev \<in> set evs. snd ev \<noteq> - 1)"
    using apply_in_order_ok_iff [OF run] by simp
  have "r = 1 \<longleftrightarrow> length evs = 4 \<and> (\<forall>ev \<in> set evs. snd ev \<noteq> - 1)"
    using ok r by simp
  moreover have "r \<noteq> 1 \<longrightarrow> r = 0"
    using r by simp
  moreover have "\<forall>j < length evs. snd (evs ! j) = - 1 \<longrightarrow> r = 0 \<and> length evs = Suc j"
    using apply_in_order_failure_last [OF run] r by simp
  moreover have "length evs < 4 \<longrightarrow> snd (last evs) = - 1"
    using apply_in_order_not_ok [OF run] ok by auto
  moreover have "evs \<noteq> []"
    using apply_in_order_nonempty [OF run] by simp
  moreover have "map fst evs = take (length evs) (keepalive_steps sock enable time interval maxpkt)"
    by (rule apply_in_order_prefix [OF run])
  ultimately show ?thesis
    unfolding evs by blast
qed

theorem short_circuit_on_first_failure_witness:
  "fst (enable_keepalive (ref_os nonneg_legal) 3 1 (- 60) 10 5 world0) = 0
   \<and> map fst (new_calls world0 (snd (enable_keepalive (ref_os nonneg_legal) 3 1 (- 60) 10 5 world0)))
       = take 2 (keepalive_steps 3 1 (- 60) 10 5)
   \<and> map snd (new_calls world0 (snd (enable_keepalive (ref_os nonneg_legal) 3 1 (- 60) 10 5 world0)))
       = [0, - 1]"
  using short_circuit_on_first_failure [OF run_idle_rejected]
  by (simp add: run_idle_rejected new_calls_def keepalive_steps_def)

text \<open>
  C2. Every invocation only appends to the record of system calls, and what it appends
  is a non-empty initial segment of the four settings in the fixed order (1) keepalive
  on/off at socket level, (2) idle time, (3) probe interval, (4) probe count at TCP
  level, all on the given handle: no other call comes between them.
\<close>

theorem settings_applied_in_fixed_order:
  assumes "enable_keepalive os sock enable time interval maxpkt w = (r, w')"
  shows "calls w' = calls w @ new_calls w w'
       \<and> new_calls w w' \<noteq> []
       \<and> map fst (new_calls w w') =
           take (length (new_calls w w'))
             [\<lparr>fd = sock, level = SOL_SOCKET, optname = SO_KEEPALIVE, optval = enable, optlen = 4\<rparr>,
              \<lparr>fd = sock, level = IPPROTO_TCP, optname = TCP_KEEPIDLE, optval = time, optlen = 4\<rparr>,
              \<lparr>fd = sock, level = IPPROTO_TCP, optname = TCP_KEEPINTVL, optval = interval, optlen = 4\<rparr>,
              \<lparr>fd = sock, level = IPPROTO_TCP, optname = TCP_KEEPCNT, optval = maxpkt, optlen = 4\<rparr>]"
proof -
  from assms obtain ok evs where
    run: "apply_in_order os (keepalive_steps sock enable time interval maxpkt) (kernel w) = (ok, evs, kernel w')"
    and app: "calls w' = calls w @ evs" and evs: "new_calls w w' = evs"
    by (rule enable_keepalive_run)
  have "evs \<noteq> []"
    using apply_in_order_nonempty [OF run] by simp
  moreover have "map fst evs = take (length evs) (keepalive_steps sock enable time interval maxpkt)"
    by (rule apply_in_order_prefix [OF run])
  ultimately show ?thesis
    using app by (simp add: evs keepalive_steps_def)
qed

theorem settings_applied_in_fixed_order_witness:
  "map (\<lambda>ev. (level (fst ev), optname (fst ev)))
     (new_calls world0 (snd (enable_keepalive (ref_os nonneg_legal) 3 1 60 10 5 world0))) =
   [(SOL_SOCKET, SO_KEEPALIVE), (IPPROTO_TCP, TCP_KEEPIDLE),
    (IPPROTO_TCP, TCP_KEEPINTVL), (IPPROTO_TCP, TCP_KEEPCNT)]"
  using settings_applied_in_fixed_order [OF run_accepted]
  by (simp add: run_accepted new_calls_def)



text \<open>
  C9. Every invocation returns (the function has no loop: for a platform whose calls
  return, it returns), after at least one and at most four calls, all on the given
  handle. The number of calls is four when no call failed and otherwise the position
  (counted from 1) of the first call that failed.
\<close>

theorem at_most_four_calls:
  "\<exists>r w'. enable_keepalive os sock enable time interval maxpkt w = (r, w')
     \<and> 1 \<le> length (new_calls w w') \<and> length (new_calls w w') \<le> 4
     \<and> length (new_calls w w') =
         (if \<forall>ev \<in> set (new_calls w w'). snd ev \<noteq> - 1 then 4
          else Suc (length (takeWhile (\<lambda>ev. snd ev \<noteq> - 1) (new_calls w w'))))
     \<and> (\<forall>ev \<in> set (new_calls w w'). fd (fst ev) = sock)"
proof -
  obtain r w' where ret: "enable_keepalive os sock enable time interval maxpkt w = (r, w')"
    by (cases "enable_keepalive os sock enable time interval maxpkt w")
  then obtain ok evs where
    run: "apply_in_order os (keepalive_steps sock enable time interval maxpkt) (kernel w) = (ok, evs, kernel w')"
    and evs: "new_calls w w' = evs"
    by (rule enable_keepalive_run)
  have ne: "evs \<noteq> []"
    using apply_in_order_nonempty [OF run] by simp
  then have "1 \<le> length evs"
    by (cases evs) simp_all
  moreover have "length evs \<le> 4"
    using apply_in_order_length_le [OF run] by simp
  moreover have "ok \<longleftrightarrow> (\<forall>ev \<in> set evs. snd ev \<noteq> - 1)"
  proof
    assume ok
    then show "\<forall>ev \<in> set evs. snd ev \<noteq> - 1"
      using apply_in_order_ok_iff [OF run] by simp
  next
    assume all: "\<forall>ev \<in> set evs. snd ev \<noteq> - 1"
    show ok
    proof (rule ccontr)
      assume "\<not> ok"
      from apply_in_order_not_ok [OF run this] have "last evs \<in> set evs" "snd (last evs) = - 1"
        by simp_all
      with all show False by blast
    qed
  qed
  then have "length evs =
      (if \<forall>ev \<in> set evs. snd ev \<noteq> - 1 then 4
       else Suc (length (takeWhile (\<lambda>ev. snd ev \<noteq> - 1) evs)))"
    using apply_in_order_count [OF run] by simp
  moreover have "\<forall>ev \<in> set evs. fd (fst ev) = sock"
  proof
    fix ev assume "ev \<in> set evs"
    then have "fst ev \<in> set (map fst evs)" by simp
    also have "map fst evs = take (length evs) (keepalive_steps sock enable time interval maxpkt)"
      by (rule apply_in_order_prefix [OF run])
    finally have "fst ev \<in> set (keepalive_steps sock enable time interval maxpkt)"
      by (rule in_set_takeD)
    then show "fd (fst ev) = sock"
      by (auto simp: keepalive_steps_def)
  qed
  ultimately show ?thesis
    using ret evs by blast
qed

theorem at_most_four_calls_witness:
  "length (new_calls world0 (snd (enable_keepalive (ref_os nonneg_legal) 3 1 (- 60) 10 5 world0))) = 2
   \<and> length (new_calls world0 (snd (enable_keepalive (ref_os nonneg_legal) 3 1 60 10 5 world0))) = 4"
  using at_most_four_calls [of "ref_os nonneg_legal" 3 1 "- 60" 10 5 world0]
    at_most_four_calls [of "ref_os nonneg_legal" 3 1 60 10 5 world0]
  by (simp add: run_idle_rejected run_accepted new_calls_def)

text \<open>
  C10. The result is exactly 0 or 1. It is 0 precisely when some call returned exactly
  \<open>-1\<close>. A call that returns any other value counts as a success: after it the next
  setting is attempted, or, after the fourth, the result is 1.
\<close>

theorem only_minus_one_is_failure:
  assumes "enable_keepalive os sock enable time interval maxpkt w = (r, w')"
  shows "(r = 0 \<or> r = 1)
       \<and> (r = 0 \<longleftrightarrow> (\<exists>ev \<in> set (new_calls w w'). snd ev = - 1))
       \<and> (\<forall>j < length (new_calls w w'). snd (new_calls w w' ! j) \<noteq> - 1 \<longrightarrow>
             (if j < 3 then Suc j < length (new_calls w w') else r = 1))"
proof -
  from assms obtain ok evs where
    run: "apply_in_order os (keepalive_steps sock enable time interval maxpkt) (kernel w) = (ok, evs, kernel w')"
    and r: "r = (if ok then 1 else 0)" and evs: "new_calls w w' = evs"
    by (rule enable_keepalive_run)
  have okiff: "ok \<longleftrightarrow> length evs = 4 \<and> (\<forall>ev \<in> set evs. snd ev \<noteq> - 1)"
    using apply_in_order_ok_iff [OF run] by simp
  have len: "length evs \<le> 4"
    using apply_in_order_length_le [OF run] by simp
  have fail: "evs \<noteq> [] \<and> snd (last evs) = - 1" if "\<not> ok"
    using apply_in_order_not_ok [OF run that] .
  have "r = 0 \<or> r = 1"
    using r by simp
  moreover have "r = 0 \<longleftrightarrow> (\<exists>ev \<in> set evs. snd ev = - 1)"
  proof
    assume "r = 0"
    with r have "\<not> ok" by (simp split: if_splits)
    from fail [OF this] have "last evs \<in> set evs" "snd (last evs) = - 1" by simp_all
    then show "\<exists>ev \<in> set evs. snd ev = - 1" by blast
  next
    assume "\<exists>ev \<in> set evs. snd ev = - 1"
    with okiff have "\<not> ok" by blast
    with r show "r = 0" by simp
  qed
  moreover have "\<forall>j < length evs. snd (evs ! j) \<noteq> - 1 \<longrightarrow>
      (if j < 3 then Suc j < length evs else r = 1)"
  proof (intro allI impI)
    fix j assume j: "j < length evs" and good: "snd (evs ! j) \<noteq> - 1"
    have last_good: False if "Suc j = length evs" "\<not> ok"
    proof -
      from fail [OF that(2)] have "snd (last evs) = - 1" "evs \<noteq> []" by simp_all
      moreover from that(1) \<open>evs \<noteq> []\<close> have "last evs = evs ! j"
        by (simp add: last_conv_nth [OF \<open>evs \<noteq> []\<close>] flip: that(1))
      ultimately show False using good by simp
    qed
    show "if j < 3 then Suc j < length evs else r = 1"
    proof (cases "j < 3")
      case True
      have "Suc j \<noteq> length evs"
      proof
        assume eq: "Suc j = length evs"
        with True have "length evs \<noteq> 4" by simp
        with okiff have "\<not> ok" by simp
        with eq show False by (rule last_good)
      qed
      with j True show ?thesis by simp
    next
      case False
      with j len have eq: "Suc j = length evs" by simp
      have ok using last_good [OF eq] by blast
      with r False show ?thesis by simp
    qed
  qed
  ultimately show ?thesis
    unfolding evs by blast
qed

theorem only_minus_one_is_failure_witness:
  "fst (enable_keepalive (const_os 7) 3 1 60 10 5 \<lparr>kernel = (), calls = []\<rparr>) = 1
   \<and> map snd (new_calls \<lparr>kernel = (), calls = []\<rparr>
        (snd (enable_keepalive (const_os 7) 3 1 60 10 5 \<lparr>kernel = (), calls = []\<rparr>))) = [7, 7, 7, 7]"
  using only_minus_one_is_failure [OF run_const_7]
  by (simp add: run_const_7 new_calls_def)

text \<open>
  C3. No rollback. On a platform where a successful call writes its option and nothing
  else, and a failed call changes no setting: when the invocation fails, the failing
  step is the last call issued, step number \<open>length (new_calls w w')\<close>. Every earlier
  step's option then reads the requested value, and the option of the failing step and
  of every later step reads what it read before the invocation. In particular, when the
  idle-time step fails after the enable step succeeded, keepalive reads the requested
  value and the idle time is unchanged.
\<close>

theorem no_rollback:
  assumes "stores_on_success os get" and "inert_on_failure os get"
    and "enable_keepalive os sock enable time interval maxpkt w = (r, w')"
    and "r = 0" and "j < 4"
  shows "get (kernel w') (option_key (keepalive_steps sock enable time interval maxpkt ! j)) =
           (if Suc j < length (new_calls w w')
            then Some (optval (keepalive_steps sock enable time interval maxpkt ! j))
            else get (kernel w) (option_key (keepalive_steps sock enable time interval maxpkt ! j)))
       \<and> (length (new_calls w w') = 2 \<longrightarrow>
            get (kernel w') (sock, SOL_SOCKET, SO_KEEPALIVE) = Some enable \<and>
            get (kernel w') (sock, IPPROTO_TCP, TCP_KEEPIDLE) =
              get (kernel w) (sock, IPPROTO_TCP, TCP_KEEPIDLE))"
proof -
  let ?g = "get (kernel w)"
  from \<open>j < 4\<close> have j: "j = 0 \<or> j = 1 \<or> j = 2 \<or> j = 3" by arith
  from assms(3) show ?thesis
  proof (cases rule: enable_keepalive_cases)
    case fail1
    have "get (kernel w') = ?g"
      by (rule inert_on_failureD [OF assms(2) fail1(1)])
    with fail1(3) show ?thesis
      by simp
  next
    case (fail2 r1 k1)
    have "get k1 = ?g((sock, SOL_SOCKET, SO_KEEPALIVE) \<mapsto> enable)"
      using stores_on_successD [OF assms(1) fail2(1,2)] by (simp add: option_key_def)
    moreover have "get (kernel w') = get k1"
      by (rule inert_on_failureD [OF assms(2) fail2(3)])
    ultimately have eq: "get (kernel w') = ?g((sock, SOL_SOCKET, SO_KEEPALIVE) \<mapsto> enable)"
      by simp
    from fail2(5) j show ?thesis
      by (elim disjE) (simp_all add: eq keepalive_steps_def option_key_def)
  next
    case (fail3 r1 k1 r2 k2)
    have "get k1 = ?g((sock, SOL_SOCKET, SO_KEEPALIVE) \<mapsto> enable)"
      using stores_on_successD [OF assms(1) fail3(1,2)] by (simp add: option_key_def)
    moreover have "get k2 = (get k1)((sock, IPPROTO_TCP, TCP_KEEPIDLE) \<mapsto> time)"
      using stores_on_successD [OF assms(1) fail3(3,4)] by (simp add: option_key_def)
    moreover have "get (kernel w') = get k2"
      by (rule inert_on_failureD [OF assms(2) fail3(5)])
    ultimately have eq: "get (kernel w') =
        ?g((sock, SOL_SOCKET, SO_KEEPALIVE) \<mapsto> enable, (sock, IPPROTO_TCP, TCP_KEEPIDLE) \<mapsto> time)"
      by simp
    from fail3(7) j show ?thesis
      by (elim disjE) (simp_all add: eq keepalive_steps_def option_key_def)
  next
    case (fail4 r1 k1 r2 k2 r3 k3)
    have "get k1 = ?g((sock, SOL_SOCKET, SO_KEEPALIVE) \<mapsto> enable)"
      using stores_on_successD [OF assms(1) fail4(1,2)] by (simp add: option_key_def)
    moreover have "get k2 = (get k1)((sock, IPPROTO_TCP, TCP_KEEPIDLE) \<mapsto> time)"
      using stores_on_successD [OF assms(1) fail4(3,4)] by (simp add: option_key_def)
    moreover have "get k3 = (get k2)((sock, IPPROTO_TCP, TCP_KEEPINTVL) \<mapsto> interval)"
      using stores_on_successD [OF assms(1) fail4(5,6)] by (simp add: option_key_def)
    moreover have "get (kernel w') = get k3"
      by (rule inert_on_failureD [OF assms(2) fail4(7)])
    ultimately have eq: "get (kernel w') =
        ?g((sock, SOL_SOCKET, SO_KEEPALIVE) \<mapsto> enable, (sock, IPPROTO_TCP, TCP_KEEPIDLE) \<mapsto> time,
           (sock, IPPROTO_TCP, TCP_KEEPINTVL) \<mapsto> interval)"
      by simp
    from fail4(9) j show ?thesis
      by (elim disjE) (simp_all add: eq keepalive_steps_def option_key_def)
  next
    case (success r1 k1 r2 k2 r3 k3 r4)
    with \<open>r = 0\<close> show ?thesis by simp
  qed
qed

theorem no_rollback_witness:
  "ref_get (kernel (snd (enable_keepalive (ref_os nonneg_legal) 3 1 (- 60) 10 5 world0)))
     (3, SOL_SOCKET, SO_KEEPALIVE) = Some 1
   \<and> ref_get (kernel world0) (3, SOL_SOCKET, SO_KEEPALIVE) = Some 0
   \<and> ref_get (kernel (snd (enable_keepalive (ref_os nonneg_legal) 3 1 (- 60) 10 5 world0)))
     (3, IPPROTO_TCP, TCP_KEEPIDLE) = Some 7200"
  using no_rollback [OF ref_os_stores ref_os_inert run_idle_rejected refl, of 0]
    no_rollback [OF ref_os_stores ref_os_inert run_idle_rejected refl, of 1]
  by (simp add: run_idle_rejected new_calls_def keepalive_steps_def option_key_def ref_get_def
      kernel0_def kernel_world0)

text \<open>
  The read-back is the platform's doing, not the code's: the source passes
  \<^verbatim>\<open>enable_keepalive\<close> as it is and never reads an option. On a platform that keeps
  keepalive as an on/off flag, \<^verbatim>\<open>enable_keepalive(3, 2, 60, 10, 5)\<close> has all four calls
  succeed and returns 1, and keepalive then reads 1, not the requested 2.
\<close>

theorem flag_platform_reads_back_one:
  "all_succeed (flag_os nonneg_legal) (keepalive_steps 3 2 60 10 5) (kernel world0)
   \<and> fst (enable_keepalive (flag_os nonneg_legal) 3 2 60 10 5 world0) = 1
   \<and> ref_get (kernel (snd (enable_keepalive (flag_os nonneg_legal) 3 2 60 10 5 world0)))
       (3, SOL_SOCKET, SO_KEEPALIVE) = Some 1
   \<and> ref_get (kernel (snd (enable_keepalive (flag_os nonneg_legal) 3 2 60 10 5 world0)))
       (3, SOL_SOCKET, SO_KEEPALIVE) \<noteq> Some 2"
  by (simp add: ref_defs flag_os_def flag_value_def)

text \<open>
  C4, amended. When the platform accepts all four calls, the invocation returns
  true (1). When in addition the platform stores the value of every successful call as
  it was passed (a successful call writes its own option with that value and nothing
  else), each of the four options of the handle reads back exactly the requested value.
  On the reference platform, which does so, \<^verbatim>\<open>enable_keepalive(3, 1, 60, 10, 5)\<close> returns
  1 and the idle time then reads 60.
\<close>

theorem accepted_settings_read_back:
  assumes "all_succeed os (keepalive_steps sock enable time interval maxpkt) (kernel w)"
    and "enable_keepalive os sock enable time interval maxpkt w = (r, w')"
  shows "r = 1
       \<and> (stores_on_success os get \<longrightarrow>
            get (kernel w') (sock, SOL_SOCKET, SO_KEEPALIVE) = Some enable
          \<and> get (kernel w') (sock, IPPROTO_TCP, TCP_KEEPIDLE) = Some time
          \<and> get (kernel w') (sock, IPPROTO_TCP, TCP_KEEPINTVL) = Some interval
          \<and> get (kernel w') (sock, IPPROTO_TCP, TCP_KEEPCNT) = Some maxpkt)"
proof -
  from assms have r: "r = 1"
    by (simp add: enable_keepalive_true_iff)
  moreover have "get (kernel w') (sock, SOL_SOCKET, SO_KEEPALIVE) = Some enable
          \<and> get (kernel w') (sock, IPPROTO_TCP, TCP_KEEPIDLE) = Some time
          \<and> get (kernel w') (sock, IPPROTO_TCP, TCP_KEEPINTVL) = Some interval
          \<and> get (kernel w') (sock, IPPROTO_TCP, TCP_KEEPCNT) = Some maxpkt"
    if stores: "stores_on_success os get"
  proof -
    note eq = enable_keepalive_true_settings [OF stores assms(2) [unfolded r]]
    show ?thesis by (simp add: eq)
  qed
  ultimately show ?thesis by blast
qed

theorem accepted_settings_read_back_witness:
  "all_succeed (ref_os nonneg_legal) (keepalive_steps 3 1 60 10 5) (kernel world0)
   \<and> stores_on_success (ref_os nonneg_legal) ref_get
   \<and> fst (enable_keepalive (ref_os nonneg_legal) 3 1 60 10 5 world0) = 1
   \<and> ref_get (kernel (snd (enable_keepalive (ref_os nonneg_legal) 3 1 60 10 5 world0)))
       (3, IPPROTO_TCP, TCP_KEEPIDLE) = Some 60"
  using accepted_settings_read_back [OF all_succeed_accepted run_accepted, of ref_get]
    ref_os_stores [of nonneg_legal] all_succeed_accepted
  by (simp add: run_accepted)

text \<open>
  C5. When the platform rejects every configuration call on the handle (a closed or
  invalid handle), the invocation returns false (0) for all values of the four
  parameters, after a single call.
\<close>

theorem rejected_handle_fails:
  assumes "rejects_handle os (kernel w) sock"
  shows "fst (enable_keepalive os sock enable time interval maxpkt w) = 0
       \<and> length (new_calls w (snd (enable_keepalive os sock enable time interval maxpkt w))) = 1"
proof -
  obtain r w' where ret: "enable_keepalive os sock enable time interval maxpkt w = (r, w')"
    by (cases "enable_keepalive os sock enable time interval maxpkt w")
  from assms have
    "fst (os \<lparr>fd = sock, level = SOL_SOCKET, optname = SO_KEEPALIVE, optval = enable, optlen = 4\<rparr>
            (kernel w)) = - 1"
    by (simp add: rejects_handle_def)
  with ret have "r = 0 \<and> length (new_calls w w') = 1"
    by (cases rule: enable_keepalive_cases) simp_all
  with ret show ?thesis by simp
qed

theorem rejected_handle_fails_witness:
  "rejects_handle (ref_os nonneg_legal) (kernel world0) 4
   \<and> fst (enable_keepalive (ref_os nonneg_legal) 4 1 60 10 5 world0) = 0"
  using rejects_closed_handle [of nonneg_legal]
    rejected_handle_fails [of "ref_os nonneg_legal" world0 4 1 60 10 5]
  by (simp add: kernel_world0)

text \<open>
  C6. Idempotence. On a platform where a successful call writes its option and nothing
  else, and where a successful call does not change which calls the platform accepts:
  when the platform accepts the four calls of the first invocation, two invocations in
  a row with the same parameters both return true (1), and every setting reads the same
  after the second as after the first.
\<close>

theorem enable_keepalive_idempotent:
  assumes "stores_on_success os get" and "acceptance_stable os"
    and "all_succeed os (keepalive_steps sock enable time interval maxpkt) (kernel w)"
    and "enable_keepalive os sock enable time interval maxpkt w = (r1, w1)"
    and "enable_keepalive os sock enable time interval maxpkt w1 = (r2, w2)"
  shows "r1 = 1 \<and> r2 = 1 \<and> get (kernel w2) = get (kernel w1)"
proof -
  let ?steps = "keepalive_steps sock enable time interval maxpkt"
  from assms(3,4) have r1: "r1 = 1"
    by (simp add: enable_keepalive_true_iff)
  from assms(4) obtain ok evs where
    run: "apply_in_order os ?steps (kernel w) = (ok, evs, kernel w1)"
    by (rule enable_keepalive_run)
  with assms(3) have run: "apply_in_order os ?steps (kernel w) = (True, evs, kernel w1)"
    by (simp add: all_succeed_iff)
  have "all_succeed os ?steps (kernel w1) = all_succeed os ?steps (kernel w)"
    by (rule all_succeed_cong [OF assms(2)])
      (rule apply_in_order_same_acceptance [OF assms(2) run])
  with assms(3,5) have r2: "r2 = 1"
    by (simp add: enable_keepalive_true_iff)
  have "get (kernel w2) = get (kernel w1)"
    unfolding enable_keepalive_true_settings [OF assms(1) assms(5) [unfolded r2]]
    unfolding enable_keepalive_true_settings [OF assms(1) assms(4) [unfolded r1]]
    by (rule ext) simp
  with r1 r2 show ?thesis by simp
qed

theorem enable_keepalive_idempotent_witness:
  "fst (enable_keepalive (ref_os nonneg_legal) 3 1 60 10 5 world0) = 1
   \<and> fst (enable_keepalive (ref_os nonneg_legal) 3 1 60 10 5
           (snd (enable_keepalive (ref_os nonneg_legal) 3 1 60 10 5 world0))) = 1
   \<and> ref_get (kernel (snd (enable_keepalive (ref_os nonneg_legal) 3 1 60 10 5
           (snd (enable_keepalive (ref_os nonneg_legal) 3 1 60 10 5 world0))))) =
       ref_get (kernel (snd (enable_keepalive (ref_os nonneg_legal) 3 1 60 10 5 world0)))"
  using enable_keepalive_idempotent [OF ref_os_stores ref_os_nonneg_stable all_succeed_accepted
      prod.collapse [symmetric] prod.collapse [symmetric]]
  by simp

text \<open>
  C7. An invocation with \<open>enabled = 0\<close> whose first call the platform accepts (on a
  platform where a successful call writes its option and nothing else, and a failed
  call changes no setting) leaves keepalive reading 0 for all values of the idle time,
  the probe interval and the probe count. It returns true (1) exactly when the platform
  accepts the three later calls on the socket with keepalive disabled; when the platform
  rejects one of them it returns false (0), keepalive having been disabled.
\<close>

theorem disable_holds_whatever_follows:
  assumes "stores_on_success os get" and "inert_on_failure os get"
    and "fst (os \<lparr>fd = sock, level = SOL_SOCKET, optname = SO_KEEPALIVE, optval = 0, optlen = 4\<rparr>
           (kernel w)) \<noteq> - 1"
    and "enable_keepalive os sock 0 time interval maxpkt w = (r, w')"
  shows "get (kernel w') (sock, SOL_SOCKET, SO_KEEPALIVE) = Some 0
       \<and> (r = 1 \<longleftrightarrow>
            all_succeed os
              [\<lparr>fd = sock, level = IPPROTO_TCP, optname = TCP_KEEPIDLE, optval = time, optlen = 4\<rparr>,
               \<lparr>fd = sock, level = IPPROTO_TCP, optname = TCP_KEEPINTVL, optval = interval, optlen = 4\<rparr>,
               \<lparr>fd = sock, level = IPPROTO_TCP, optname = TCP_KEEPCNT, optval = maxpkt, optlen = 4\<rparr>]
              (snd (os \<lparr>fd = sock, level = SOL_SOCKET, optname = SO_KEEPALIVE, optval = 0, optlen = 4\<rparr>
                     (kernel w))))
       \<and> (r \<noteq> 1 \<longrightarrow> r = 0)"
proof -
  let ?g = "get (kernel w)"
  from assms(4) show ?thesis
  proof (cases rule: enable_keepalive_cases)
    case fail1
    with assms(3) show ?thesis by simp
  next
    case (fail2 r1 k1)
    have "get k1 = ?g((sock, SOL_SOCKET, SO_KEEPALIVE) \<mapsto> 0)"
      using stores_on_successD [OF assms(1) fail2(1,2)] by (simp add: option_key_def)
    moreover have "get (kernel w') = get k1"
      by (rule inert_on_failureD [OF assms(2) fail2(3)])
    ultimately have eq: "get (kernel w') = ?g((sock, SOL_SOCKET, SO_KEEPALIVE) \<mapsto> 0)"
      by simp
    from fail2 show ?thesis
      by (simp add: eq)
  next
    case (fail3 r1 k1 r2 k2)
    have "get k1 = ?g((sock, SOL_SOCKET, SO_KEEPALIVE) \<mapsto> 0)"
      using stores_on_successD [OF assms(1) fail3(1,2)] by (simp add: option_key_def)
    moreover have "get k2 = (get k1)((sock, IPPROTO_TCP, TCP_KEEPIDLE) \<mapsto> time)"
      using stores_on_successD [OF assms(1) fail3(3,4)] by (simp add: option_key_def)
    moreover have "get (kernel w') = get k2"
      by (rule inert_on_failureD [OF assms(2) fail3(5)])
    ultimately have eq: "get (kernel w') =
        ?g((sock, SOL_SOCKET, SO_KEEPALIVE) \<mapsto> 0, (sock, IPPROTO_TCP, TCP_KEEPIDLE) \<mapsto> time)"
      by simp
    from fail3 show ?thesis
      by (simp add: eq)
  next
    case (fail4 r1 k1 r2 k2 r3 k3)
    have "get k1 = ?g((sock, SOL_SOCKET, SO_KEEPALIVE) \<mapsto> 0)"
      using stores_on_successD [OF assms(1) fail4(1,2)] by (simp add: option_key_def)
    moreover have "get k2 = (get k1)((sock, IPPROTO_TCP, TCP_KEEPIDLE) \<mapsto> time)"
      using stores_on_successD [OF assms(1) fail4(3,4)] by (simp add: option_key_def)
    moreover have "get k3 = (get k2)((sock, IPPROTO_TCP, TCP_KEEPINTVL) \<mapsto> interval)"
      using stores_on_successD [OF assms(1) fail4(5,6)] by (simp add: option_key_def)
    moreover have "get (kernel w') = get k3"
      by (rule inert_on_failureD [OF assms(2) fail4(7)])
    ultimately have eq: "get (kernel w') =
        ?g((sock, SOL_SOCKET, SO_KEEPALIVE) \<mapsto> 0, (sock, IPPROTO_TCP, TCP_KEEPIDLE) \<mapsto> time,
           (sock, IPPROTO_TCP, TCP_KEEPINTVL) \<mapsto> interval)"
      by simp
    from fail4 show ?thesis
      by (simp add: eq)
  next
    case (success r1 k1 r2 k2 r3 k3 r4)
    have eq: "get (kernel w') = ?g
        ((sock, SOL_SOCKET, SO_KEEPALIVE) \<mapsto> 0, (sock, IPPROTO_TCP, TCP_KEEPIDLE) \<mapsto> time,
         (sock, IPPROTO_TCP, TCP_KEEPINTVL) \<mapsto> interval, (sock, IPPROTO_TCP, TCP_KEEPCNT) \<mapsto> maxpkt)"
      using assms(4) unfolding \<open>r = 1\<close> by (rule enable_keepalive_true_settings [OF assms(1)])
    from success show ?thesis
      by (simp add: eq)
  qed
qed

theorem disable_holds_whatever_follows_witness:
  "ref_get (kernel world1) (3, SOL_SOCKET, SO_KEEPALIVE) = Some 1
   \<and> fst (enable_keepalive (ref_os enabled_first_legal) 3 0 60 10 5 world1) = 0
   \<and> ref_get (kernel (snd (enable_keepalive (ref_os enabled_first_legal) 3 0 60 10 5 world1)))
       (3, SOL_SOCKET, SO_KEEPALIVE) = Some 0"
  using disable_holds_whatever_follows
    [OF ref_os_stores ref_os_inert disable_accepted run_disable_rejected] keepalive_on_world1
  by (simp add: run_disable_rejected ref_get_def)

end
